theory Spec2Isabelle
  imports Main "HOL-Library.AList"
begin

section \<open>JavaScript values\<close>

text \<open>
  A \<open>Date\<close> object is represented by what its local-time getters return. An invalid
  date (time value NaN) is \<open>None\<close> at the place where a date is stored.
\<close>

record Date =
  getFullYear :: int
  getMonth :: nat
  getDate :: nat
  getDay :: nat
  getHours :: nat
  getMinutes :: nat
  getSeconds :: nat
  getMilliseconds :: nat

text \<open>
  The values a parameter bag or a JSON body is built from. Numbers are the integral ones.
  An object is the list of its enumerable properties in the order \<open>for ... in\<close> visits
  them; the keys of a well-formed object are distinct.
\<close>

datatype jsvalue =
    JUndefined
  | JNull
  | JBool bool
  | JNum int
  | JStr string
  | JDate "Date option"
  | JArr "jsvalue list"
  | JObj "(string \<times> jsvalue) list"

fun typeof :: "jsvalue \<Rightarrow> string" where
  "typeof JUndefined = ''undefined''"
| "typeof JNull = ''object''"
| "typeof (JBool b) = ''boolean''"
| "typeof (JNum n) = ''number''"
| "typeof (JStr s) = ''string''"
| "typeof (JDate d) = ''object''"
| "typeof (JArr vs) = ''object''"
| "typeof (JObj es) = ''object''"

fun isArray :: "jsvalue \<Rightarrow> bool" where
  "isArray (JArr vs) = True"
| "isArray v = False"

fun instanceof_Date :: "jsvalue \<Rightarrow> bool" where
  "instanceof_Date (JDate d) = True"
| "instanceof_Date v = False"

text \<open>The left operand of \<open>||\<close> is kept when it is truthy.\<close>

fun truthy :: "jsvalue \<Rightarrow> bool" where
  "truthy JUndefined = False"
| "truthy JNull = False"
| "truthy (JBool b) = b"
| "truthy (JNum n) = (n \<noteq> 0)"
| "truthy (JStr s) = (s \<noteq> [])"
| "truthy (JDate d) = True"
| "truthy (JArr vs) = True"
| "truthy (JObj es) = True"

subsection \<open>Decimal numerals\<close>

definition digit :: "nat \<Rightarrow> char" where
  "digit d = ''0123456789'' ! (d mod 10)"

fun show_nat :: "nat \<Rightarrow> string" where
  "show_nat n = (if n < 10 then [digit n] else show_nat (n div 10) @ [digit n])"

declare show_nat.simps [simp del]

definition zero_pad :: "nat \<Rightarrow> string \<Rightarrow> string" where
  "zero_pad w s = replicate (w - length s) CHR ''0'' @ s"

subsection \<open>Date.prototype.toDateString\<close>

definition weekday_name :: "nat \<Rightarrow> string" where
  "weekday_name n =
     (if n < 7 then [''Sun'', ''Mon'', ''Tue'', ''Wed'', ''Thu'', ''Fri'', ''Sat''] ! n else [])"

definition month_name :: "nat \<Rightarrow> string" where
  "month_name n =
     (if n < 12
      then [''Jan'', ''Feb'', ''Mar'', ''Apr'', ''May'', ''Jun'',
            ''Jul'', ''Aug'', ''Sep'', ''Oct'', ''Nov'', ''Dec''] ! n
      else [])"

text \<open>
  ECMAScript's \<open>toDateString\<close>: weekday, month, two-digit day and the year padded to four
  digits, of the local date; \<open>Invalid Date\<close> for an invalid date.
\<close>

definition toDateString :: "Date option \<Rightarrow> string" where
  "toDateString d =
     (case d of
        None \<Rightarrow> ''Invalid Date''
      | Some t \<Rightarrow>
          weekday_name (getDay t) @ '' '' @ month_name (getMonth t) @ '' ''
          @ zero_pad 2 (show_nat (getDate t)) @ '' ''
          @ (if getFullYear t < 0 then ''-'' else [])
          @ zero_pad 4 (show_nat (nat \<bar>getFullYear t\<bar>)))"

fun date_of :: "jsvalue \<Rightarrow> Date option" where
  "date_of (JDate d) = d"
| "date_of v = None"

fun elements :: "jsvalue \<Rightarrow> jsvalue list" where
  "elements (JArr vs) = vs"
| "elements v = []"

section \<open>URLSearchParams\<close>

text \<open>
  Modelled from the spec: the \<open>URLSearchParams\<close> class of the HTTP client library is not
  part of the repository. It is a map from a parameter name to the list of its values,
  in insertion order. \<open>set\<close> makes the value the only one of its key, \<open>append\<close> adds a
  value after the ones the key already has, and \<open>appendAll\<close> appends every value of
  another collection under its own key. As the library does, \<open>set\<close> with \<open>undefined\<close>
  or \<open>null\<close> removes the key and \<open>append\<close> ignores such a value. Values are stored as
  they are passed and take their string form when the query string is written.
\<close>

type_synonym URLSearchParams = "(string \<times> jsvalue list) list"

definition getAll :: "string \<Rightarrow> URLSearchParams \<Rightarrow> jsvalue list" where
  "getAll param ps = (case map_of ps param of None \<Rightarrow> [] | Some vs \<Rightarrow> vs)"

text \<open>The test \<open>val === void 0 || val === null\<close>.\<close>

definition absent :: "jsvalue \<Rightarrow> bool" where
  "absent val = (val = JUndefined \<or> val = JNull)"

definition set_param :: "string \<Rightarrow> jsvalue \<Rightarrow> URLSearchParams \<Rightarrow> URLSearchParams" where
  "set_param param val ps =
     (if absent val then AList.delete param ps else AList.update param [val] ps)"

definition append_param :: "string \<Rightarrow> jsvalue \<Rightarrow> URLSearchParams \<Rightarrow> URLSearchParams" where
  "append_param param val ps =
     (if absent val then ps else AList.update param (getAll param ps @ [val]) ps)"

definition appendAll :: "URLSearchParams \<Rightarrow> URLSearchParams \<Rightarrow> URLSearchParams" where
  "appendAll searchParams ps =
     fold (\<lambda>(param, vals) acc. AList.update param (getAll param acc @ vals) acc) searchParams ps"

text \<open>
  The key/value pairs of the collection in the order the query string has them, and the
  pairs as the query string writes them: \<open>str\<close> is the string coercion of the engine.
\<close>

definition pairs :: "URLSearchParams \<Rightarrow> (string \<times> jsvalue) list" where
  "pairs ps = concat (map (\<lambda>(param, vals). map (Pair param) vals) ps)"

definition string_pairs :: "(jsvalue \<Rightarrow> string) \<Rightarrow> URLSearchParams \<Rightarrow> (string \<times> string) list" where
  "string_pairs str ps = map (\<lambda>(param, val). (param, str val)) (pairs ps)"

section \<open>BaseService.transformParameters\<close>

text \<open>
  The properties \<open>for (let property in obj)\<close> visits, each with \<open>obj[property]\<close>:
  none for \<open>null\<close>, \<open>undefined\<close>, a number, a boolean or a date, the indices for an
  array or a string.
\<close>

fun for_in :: "jsvalue \<Rightarrow> (string \<times> jsvalue) list" where
  "for_in (JObj es) = es"
| "for_in (JArr vs) = zip (map show_nat [0..<length vs]) vs"
| "for_in (JStr s) = zip (map show_nat [0..<length s]) (map (\<lambda>c. JStr [c]) s)"
| "for_in v = []"

function transformParameters :: "jsvalue \<Rightarrow> URLSearchParams" where
  "transformParameters obj =
     fold (\<lambda>(property, parameter) urlSearchParams.
             if instanceof_Date parameter then
               set_param property (JStr (toDateString (date_of parameter))) urlSearchParams
             else if typeof parameter = ''object'' \<and> \<not> isArray parameter then
               appendAll (transformParameters parameter) urlSearchParams
             else if isArray parameter then
               fold (\<lambda>v. append_param property v) (elements parameter) urlSearchParams
             else
               set_param property parameter urlSearchParams)
          (for_in obj) []"
  by pat_completeness auto
termination
proof (relation "measure size")
  show "wf (measure size)" by simp
next
  fix obj :: jsvalue and x :: "string \<times> jsvalue" and xa :: URLSearchParams
    and property :: string and parameter :: jsvalue and xb :: URLSearchParams
  assume mem: "x \<in> set (for_in obj)" and x: "(property, parameter) = x"
    and obj: "typeof parameter = ''object'' \<and> \<not> isArray parameter"
  have "size parameter < size obj"
  proof (cases obj)
    case (JObj es)
    with mem x have "(property, parameter) \<in> set es" by simp
    then have "size_prod (\<lambda>_. 0) size (property, parameter) \<le> size_list (size_prod (\<lambda>_. 0) size) es"
      by (rule size_list_estimation') simp
    with JObj show ?thesis by simp
  next
    case (JArr vs)
    with mem x have "parameter \<in> set vs" by (auto dest: set_zip_rightD)
    then have "size parameter \<le> size_list size vs"
      by (rule size_list_estimation') simp
    with JArr show ?thesis by simp
  next
    case (JStr s)
    with mem x obj show ?thesis by (auto dest!: set_zip_rightD)
  qed (use mem in simp_all)
  then show "(parameter, obj) \<in> measure size" by simp
qed

declare transformParameters.simps [simp del]

text \<open>The body of the loop, and the three kinds of value it tells apart.\<close>

definition loop_body :: "string \<times> jsvalue \<Rightarrow> URLSearchParams \<Rightarrow> URLSearchParams" where
  "loop_body = (\<lambda>(property, parameter) urlSearchParams.
     if instanceof_Date parameter then
       set_param property (JStr (toDateString (date_of parameter))) urlSearchParams
     else if typeof parameter = ''object'' \<and> \<not> isArray parameter then
       appendAll (transformParameters parameter) urlSearchParams
     else if isArray parameter then
       fold (\<lambda>v. append_param property v) (elements parameter) urlSearchParams
     else
       set_param property parameter urlSearchParams)"

definition nested :: "jsvalue \<Rightarrow> bool" where
  "nested v = (\<not> instanceof_Date v \<and> typeof v = ''object'' \<and> \<not> isArray v)"

definition scalar :: "jsvalue \<Rightarrow> bool" where
  "scalar v = (\<not> instanceof_Date v \<and> typeof v \<noteq> ''object'' \<and> \<not> isArray v)"

text \<open>The values a nested object of an entry flattens to under a key.\<close>

definition nested_values :: "string \<Rightarrow> string \<times> jsvalue \<Rightarrow> jsvalue list" where
  "nested_values k e = (if nested (snd e) then getAll k (transformParameters (snd e)) else [])"

section \<open>The HTTP client\<close>

text \<open>
  Modelled from the spec: the \<open>Response\<close> class of the HTTP client library is not part
  of the repository. A response has a status and a JSON-decoding operation; what
  \<open>json()\<close> does is part of the response: it returns the decoded body, or throws when
  the body cannot be decoded.
\<close>

datatype exn = SyntaxError | TypeError

record Response =
  status :: nat
  json :: "exn + jsvalue"

definition ok :: "Response \<Rightarrow> bool" where
  "ok res = (200 \<le> status res \<and> status res < 300)"

text \<open>
  Modelled from the spec: the observables (\<open>map\<close>, \<open>catch\<close>, \<open>Observable.throw\<close>) are
  not part of the repository. An observable of the client produces one value or fails
  once. A failure carries the failed response, a thrown exception, or another value
  an observable was made to fail with.
\<close>

datatype failure = FResponse Response | FThrown exn | FValue jsvalue

datatype 'a Observable = Next 'a | Error failure

text \<open>\<open>map\<close>: a projection that throws turns the value into a failure.\<close>

fun map_obs :: "('a \<Rightarrow> exn + 'b) \<Rightarrow> 'a Observable \<Rightarrow> 'b Observable" where
  "map_obs project (Next x) = (case project x of Inl e \<Rightarrow> Error (FThrown e) | Inr y \<Rightarrow> Next y)"
| "map_obs project (Error err) = Error err"

text \<open>\<open>catch\<close>: a failure is replaced by the observable the selector returns.\<close>

fun catch_obs :: "(failure \<Rightarrow> exn + 'a Observable) \<Rightarrow> 'a Observable \<Rightarrow> 'a Observable" where
  "catch_obs selector (Next x) = Next x"
| "catch_obs selector (Error err) =
     (case selector err of Inl e \<Rightarrow> Error (FThrown e) | Inr obs \<Rightarrow> obs)"

text \<open>
  The static \<open>Observable.throw\<close> is installed by the patch \<open>rxjs/add/observable/throw\<close>.
  The file imports the class and the patches of \<open>map\<close> and \<open>catch\<close> only, so
  \<open>Observable.throw\<close> is \<open>undefined\<close> there and calling it throws a TypeError.
\<close>

definition Observable_throw :: "jsvalue \<Rightarrow> exn + 'a Observable" where
  "Observable_throw body = Inl TypeError"

datatype RequestMethod = Get | Post | Put | Delete

record Request =
  req_method :: RequestMethod
  req_url :: string
  req_search :: "URLSearchParams option"
  req_body :: "jsvalue option"

text \<open>
  Modelled from the spec: the \<open>Http\<close> service is not part of the repository. It sends
  one request per call; a response with a 2xx status is the value of the observable,
  any other response is its failure. The server and the transport are the function
  from the request to the response.
\<close>

type_synonym Http = "Request \<Rightarrow> Response"

definition request :: "Http \<Rightarrow> Request \<Rightarrow> Response Observable" where
  "request backend req =
     (let res = backend req in if ok res then Next res else Error (FResponse res))"

definition http_get :: "Http \<Rightarrow> string \<Rightarrow> URLSearchParams \<Rightarrow> Response Observable" where
  "http_get backend u search =
     request backend \<lparr>req_method = Get, req_url = u, req_search = Some search, req_body = None\<rparr>"

definition http_post :: "Http \<Rightarrow> string \<Rightarrow> jsvalue \<Rightarrow> Response Observable" where
  "http_post backend u body =
     request backend \<lparr>req_method = Post, req_url = u, req_search = None, req_body = Some body\<rparr>"

definition http_put :: "Http \<Rightarrow> string \<Rightarrow> jsvalue \<Rightarrow> Response Observable" where
  "http_put backend u body =
     request backend \<lparr>req_method = Put, req_url = u, req_search = None, req_body = Some body\<rparr>"

definition http_delete :: "Http \<Rightarrow> string \<Rightarrow> URLSearchParams \<Rightarrow> Response Observable" where
  "http_delete backend u search =
     request backend \<lparr>req_method = Delete, req_url = u, req_search = Some search, req_body = None\<rparr>"

section \<open>BaseService\<close>

record BaseService =
  http :: Http
  url :: string

text \<open>The constructor takes the prefix and sets \<open>url\<close> to the empty string.\<close>

definition constructor :: "Http \<Rightarrow> string \<Rightarrow> BaseService" where
  "constructor h prefix = \<lparr>http = h, url = []\<rparr>"

text \<open>\<open>res.json() || {}\<close>, with nothing around it that catches.\<close>

definition extractData :: "Response \<Rightarrow> exn + jsvalue" where
  "extractData res =
     (case json res of
        Inl e \<Rightarrow> Inl e
      | Inr body \<Rightarrow> Inr (if truthy body then body else JObj []))"

text \<open>
  \<open>err.json()\<close>, then \<open>Observable.throw(body)\<close>. An error that is no response has no
  \<open>json\<close> method, and calling it throws a TypeError.
\<close>

fun errorHandler :: "failure \<Rightarrow> exn + jsvalue Observable" where
  "errorHandler (FResponse err) =
     (case json err of Inl e \<Rightarrow> Inl e | Inr body \<Rightarrow> Observable_throw body)"
| "errorHandler (FThrown e) = Inl TypeError"
| "errorHandler (FValue v) = Inl TypeError"

text \<open>A missing argument takes the default of its parameter.\<close>

definition default_endpoint :: "string option \<Rightarrow> string" where
  "default_endpoint endpoint = (case endpoint of None \<Rightarrow> [] | Some e \<Rightarrow> e)"

definition default_data :: "jsvalue \<Rightarrow> jsvalue" where
  "default_data data = (if data = JUndefined then JNull else data)"

definition get :: "BaseService \<Rightarrow> string option \<Rightarrow> jsvalue \<Rightarrow> jsvalue Observable" where
  "get this endpoint queryParams =
     (let requestUrl = url this @ ''/'' @ default_endpoint endpoint;
          search = transformParameters queryParams
      in catch_obs errorHandler (map_obs extractData (http_get (http this) requestUrl search)))"

definition getExternal :: "BaseService \<Rightarrow> string \<Rightarrow> jsvalue \<Rightarrow> jsvalue Observable" where
  "getExternal this u queryParams =
     (let search = transformParameters queryParams
      in catch_obs errorHandler (map_obs extractData (http_get (http this) u search)))"

definition post :: "BaseService \<Rightarrow> string option \<Rightarrow> jsvalue \<Rightarrow> jsvalue Observable" where
  "post this endpoint data =
     catch_obs errorHandler (map_obs extractData
       (http_post (http this) (url this @ ''/'' @ default_endpoint endpoint) (default_data data)))"

definition put :: "BaseService \<Rightarrow> string option \<Rightarrow> jsvalue \<Rightarrow> jsvalue Observable" where
  "put this endpoint data =
     catch_obs errorHandler (map_obs extractData
       (http_put (http this) (url this @ ''/'' @ default_endpoint endpoint) (default_data data)))"

definition delete :: "BaseService \<Rightarrow> string option \<Rightarrow> jsvalue \<Rightarrow> jsvalue Observable" where
  "delete this endpoint queryParams =
     (let search = transformParameters queryParams
      in catch_obs errorHandler (map_obs extractData
           (http_delete (http this) (url this @ ''/'' @ default_endpoint endpoint) search)))"

section \<open>The response envelope\<close>

text \<open>
  \<open>JSendReply\<close>: an object with \<open>data\<close>, a string \<open>message\<close>, a string \<open>status\<close> and a
  number \<open>statusCode\<close>.
\<close>

definition prop_of :: "string \<Rightarrow> jsvalue \<Rightarrow> jsvalue option" where
  "prop_of name v = (case v of JObj es \<Rightarrow> map_of es name | _ \<Rightarrow> None)"

definition is_JSendReply :: "jsvalue \<Rightarrow> bool" where
  "is_JSendReply v =
     (prop_of ''data'' v \<noteq> None
      \<and> (case prop_of ''message'' v of Some (JStr s) \<Rightarrow> True | _ \<Rightarrow> False)
      \<and> (case prop_of ''status'' v of Some (JStr s) \<Rightarrow> True | _ \<Rightarrow> False)
      \<and> (case prop_of ''statusCode'' v of Some (JNum n) \<Rightarrow> True | _ \<Rightarrow> False))"

section \<open>Facts about the parameter collection and the loop\<close>

lemma transformParameters_fold: "transformParameters obj = fold loop_body (for_in obj) []"
  by (subst transformParameters.simps) (simp add: loop_body_def)

lemma getAll_update: "getAll k (AList.update k' vs ps) = (if k = k' then vs else getAll k ps)"
  by (simp add: getAll_def update_conv')

lemma getAll_Nil: "getAll k [] = []"
  by (simp add: getAll_def)

lemma getAll_notin: "k \<notin> fst ` set ps \<Longrightarrow> getAll k ps = []"
  using map_of_eq_None_iff [of ps k] by (simp add: getAll_def)

lemma getAll_Cons: "getAll k ((k', vs) # ps) = (if k = k' then vs else getAll k ps)"
  by (simp add: getAll_def)

lemma appendAll_Nil: "appendAll [] ps = ps"
  by (simp add: appendAll_def)

lemma appendAll_Cons:
  "appendAll ((k, vs) # src) ps = appendAll src (AList.update k (getAll k ps @ vs) ps)"
  by (simp add: appendAll_def)

lemma getAll_appendAll:
  "distinct (map fst src) \<Longrightarrow> getAll k (appendAll src ps) = getAll k ps @ getAll k src"
proof (induction src arbitrary: ps)
  case Nil
  show ?case by (simp add: appendAll_Nil getAll_Nil)
next
  case (Cons e src)
  obtain k' vs where e: "e = (k', vs)" by (cases e)
  from Cons.prems e have d: "distinct (map fst src)" and n: "k' \<notin> fst ` set src" by auto
  show ?case
    using Cons.IH [OF d] getAll_notin [OF n]
    by (simp add: e appendAll_Cons getAll_update getAll_Cons)
qed

lemma keys_appendAll: "fst ` set (appendAll src ps) = fst ` set ps \<union> fst ` set src"
proof (induction src arbitrary: ps)
  case Nil
  show ?case by (simp add: appendAll_Nil)
next
  case (Cons e src)
  obtain k' vs where e: "e = (k', vs)" by (cases e)
  show ?case by (auto simp: e appendAll_Cons Cons.IH dom_update)
qed

lemma distinct_appendAll:
  "distinct (map fst ps) \<Longrightarrow> distinct (map fst (appendAll src ps))"
proof (induction src arbitrary: ps)
  case Nil
  then show ?case by (simp add: appendAll_Nil)
next
  case (Cons e src)
  obtain k' vs where e: "e = (k', vs)" by (cases e)
  show ?case using Cons.prems by (simp add: e appendAll_Cons Cons.IH distinct_update)
qed

lemma getAll_delete: "getAll k (AList.delete k' ps) = (if k = k' then [] else getAll k ps)"
  by (simp add: getAll_def delete_conv')

lemma getAll_fold_append:
  "getAll k (fold (append_param k') vs ps)
     = (if k = k' then getAll k ps @ filter (\<lambda>v. \<not> absent v) vs else getAll k ps)"
  by (induction vs arbitrary: ps) (simp_all add: append_param_def getAll_update)

lemma keys_fold_append:
  "fst ` set (fold (append_param k) vs ps) \<subseteq> insert k (fst ` set ps)"
proof (induction vs arbitrary: ps)
  case Nil
  show ?case by auto
next
  case (Cons v vs)
  have "fst ` set (append_param k v ps) \<subseteq> insert k (fst ` set ps)"
    by (auto simp: append_param_def dom_update)
  with Cons.IH [of "append_param k v ps"] show ?case by auto
qed

lemma distinct_fold_append:
  "distinct (map fst ps) \<Longrightarrow> distinct (map fst (fold (append_param k) vs ps))"
  by (induction vs arbitrary: ps) (simp_all add: append_param_def distinct_update)

lemma distinct_loop_body: "distinct (map fst ps) \<Longrightarrow> distinct (map fst (loop_body e ps))"
  by (cases e)
    (simp add: loop_body_def set_param_def distinct_update distinct_delete distinct_appendAll
      distinct_fold_append)

lemma distinct_fold_loop_body:
  "distinct (map fst ps) \<Longrightarrow> distinct (map fst (fold loop_body es ps))"
  by (induction es arbitrary: ps) (simp_all add: distinct_loop_body)

lemma distinct_transformParameters: "distinct (map fst (transformParameters obj))"
  by (simp add: transformParameters_fold distinct_fold_loop_body)

lemma getAll_loop_body_date:
  "instanceof_Date v \<Longrightarrow> getAll k (loop_body (p, v) ps)
     = (if k = p then [JStr (toDateString (date_of v))] else getAll k ps)"
  by (simp add: loop_body_def set_param_def absent_def getAll_update)

lemma getAll_loop_body_nested:
  "nested v \<Longrightarrow> getAll k (loop_body (p, v) ps) = getAll k ps @ getAll k (transformParameters v)"
  by (simp add: loop_body_def nested_def getAll_appendAll distinct_transformParameters)

lemma getAll_loop_body_array:
  "isArray v \<Longrightarrow> getAll k (loop_body (p, v) ps)
     = (if k = p then getAll k ps @ filter (\<lambda>v. \<not> absent v) (elements v) else getAll k ps)"
  by (cases v) (simp_all add: loop_body_def getAll_fold_append)

lemma getAll_loop_body_scalar:
  "scalar v \<Longrightarrow> getAll k (loop_body (p, v) ps)
     = (if k = p then (if v = JUndefined then [] else [v]) else getAll k ps)"
  by (cases v)
    (simp_all add: loop_body_def scalar_def set_param_def absent_def getAll_update getAll_delete)

lemma kinds: "instanceof_Date v \<or> nested v \<or> isArray v \<or> scalar v"
  by (auto simp: nested_def scalar_def)

lemma getAll_loop_body_other:
  "k \<noteq> p \<Longrightarrow> getAll k (loop_body (p, v) ps) = getAll k ps @ nested_values k (p, v)"
  using kinds [of v]
  by (auto simp: nested_values_def getAll_loop_body_date getAll_loop_body_nested
      getAll_loop_body_array getAll_loop_body_scalar nested_def)

lemma getAll_fold_other:
  "k \<notin> fst ` set es \<Longrightarrow>
   getAll k (fold loop_body es ps) = getAll k ps @ concat (map (nested_values k) es)"
proof (induction es arbitrary: ps)
  case Nil
  show ?case by simp
next
  case (Cons e es)
  obtain p v where e: "e = (p, v)" by (cases e)
  from Cons.prems e have "k \<noteq> p" and "k \<notin> fst ` set es" by auto
  then show ?case by (simp add: e Cons.IH getAll_loop_body_other)
qed

lemma getAll_loop_body_grows:
  assumes "p \<noteq> k \<or> nested w \<or> isArray w"
  shows "\<exists>a. getAll k (loop_body (p, w) ps) = getAll k ps @ a"
proof (cases "p = k")
  case False
  then show ?thesis by (simp add: getAll_loop_body_other)
next
  case True
  with assms have "nested w \<or> isArray w" by simp
  then show ?thesis
    by (auto simp: getAll_loop_body_nested getAll_loop_body_array True)
qed

lemma getAll_fold_grows:
  "\<forall>w. (k, w) \<in> set es \<longrightarrow> nested w \<or> isArray w \<Longrightarrow>
   \<exists>a. getAll k (fold loop_body es ps) = getAll k ps @ a"
proof (induction es arbitrary: ps)
  case Nil
  show ?case by simp
next
  case (Cons e es)
  obtain p w where e: "e = (p, w)" by (cases e)
  from Cons.prems e have "p \<noteq> k \<or> nested w \<or> isArray w" by auto
  then obtain a where a: "getAll k (loop_body (p, w) ps) = getAll k ps @ a"
    using getAll_loop_body_grows by blast
  from Cons.prems have "\<forall>w. (k, w) \<in> set es \<longrightarrow> nested w \<or> isArray w" by simp
  from Cons.IH [OF this, of "loop_body (p, w) ps"] obtain b
    where "getAll k (fold loop_body es (loop_body (p, w) ps)) = getAll k (loop_body (p, w) ps) @ b"
    by blast
  with a show ?case by (simp add: e)
qed

lemma pairs_Cons: "pairs ((k, vs) # ps) = map (Pair k) vs @ pairs ps"
  by (simp add: pairs_def)

lemma filter_pairs_notin:
  "k \<notin> fst ` set ps \<Longrightarrow> filter (\<lambda>p. fst p = k) (pairs ps) = []"
  by (induction ps) (auto simp: pairs_def filter_empty_conv)

lemma filter_pairs:
  "distinct (map fst ps) \<Longrightarrow> filter (\<lambda>p. fst p = k) (pairs ps) = map (Pair k) (getAll k ps)"
proof (induction ps)
  case Nil
  show ?case by (simp add: pairs_def getAll_Nil)
next
  case (Cons e ps)
  obtain k' vs where e: "e = (k', vs)" by (cases e)
  from Cons.prems e have d: "distinct (map fst ps)" and n: "k' \<notin> fst ` set ps" by auto
  show ?case
  proof (cases "k = k'")
    case True
    with n have "filter (\<lambda>p. fst p = k) (pairs ps) = []" by (simp add: filter_pairs_notin)
    with True show ?thesis by (simp add: e pairs_Cons getAll_Cons)
  next
    case False
    then have "filter (\<lambda>p. fst p = k) (map (Pair k') vs) = []"
      by (auto simp: filter_empty_conv)
    with False show ?thesis by (simp add: e pairs_Cons getAll_Cons Cons.IH [OF d])
  qed
qed

lemma transformParameters_null: "transformParameters JNull = []"
  by (simp add: transformParameters_fold)

lemma loop_body_null: "loop_body (p, JNull) ps = ps"
  by (simp add: loop_body_def transformParameters_null appendAll_Nil)

lemma fold_loop_body_null:
  "fold loop_body (filter (\<lambda>e. snd e \<noteq> JNull) es) ps = fold loop_body es ps"
proof (induction es arbitrary: ps)
  case Nil
  show ?case by simp
next
  case (Cons e es)
  obtain p v where e: "e = (p, v)" by (cases e)
  show ?case by (cases "v = JNull") (simp_all add: e Cons.IH loop_body_null)
qed

lemma update_fresh: "k \<notin> fst ` set ps \<Longrightarrow> AList.update k v ps = ps @ [(k, v)]"
  by (induction ps) auto

lemma fold_loop_body_scalars:
  "distinct (map fst es) \<Longrightarrow> fst ` set es \<inter> fst ` set ps = {} \<Longrightarrow>
   \<forall>(k, v) \<in> set es. scalar v \<Longrightarrow>
   fold loop_body es ps = ps @ map (\<lambda>(k, v). (k, [v])) (filter (\<lambda>(k, v). v \<noteq> JUndefined) es)"
proof (induction es arbitrary: ps)
  case Nil
  show ?case by simp
next
  case (Cons e es)
  obtain p v where e: "e = (p, v)" by (cases e)
  from Cons.prems e have sc: "scalar v" and fresh: "p \<notin> fst ` set ps" by auto
  from sc have ab: "absent v \<longleftrightarrow> v = JUndefined" by (auto simp: scalar_def absent_def)
  let ?ps = "if v = JUndefined then ps else ps @ [(p, [v])]"
  from sc fresh ab have step: "loop_body (p, v) ps = ?ps"
    by (simp add: loop_body_def scalar_def set_param_def update_fresh)
  from Cons.prems e have "distinct (map fst es)"
    and "fst ` set es \<inter> fst ` set ?ps = {}"
    and "\<forall>(k, v) \<in> set es. scalar v" by auto
  then have "fold loop_body es ?ps
      = ?ps @ map (\<lambda>(k, v). (k, [v])) (filter (\<lambda>(k, v). v \<noteq> JUndefined) es)"
    by (rule Cons.IH)
  with step show ?case by (simp add: e)
qed

lemma pairs_singletons: "pairs (map (\<lambda>(k, v). (k, [v])) es) = es"
  by (induction es) (auto simp: pairs_def)

lemma keys_loop_body_nested:
  "nested v \<Longrightarrow> fst ` set (loop_body (p, v) ps) = fst ` set ps \<union> fst ` set (transformParameters v)"
  by (simp add: loop_body_def nested_def keys_appendAll)

lemma keys_delete: "fst ` set (AList.delete k ps) \<subseteq> fst ` set ps"
  by (rule dom_delete_subset)

lemma keys_loop_body_other:
  "\<not> nested v \<Longrightarrow> fst ` set (loop_body (p, v) ps) \<subseteq> insert p (fst ` set ps)"
  using keys_fold_append [of p "elements v" ps] keys_delete [of p ps]
  by (auto simp: loop_body_def nested_def set_param_def dom_update split: if_splits)

lemma keys_fold_origin:
  "k \<in> fst ` set (fold loop_body es ps) \<Longrightarrow>
   k \<in> fst ` set ps \<or> (\<exists>w. (k, w) \<in> set es \<and> \<not> nested w)
   \<or> (\<exists>p w. (p, w) \<in> set es \<and> nested w \<and> k \<in> fst ` set (transformParameters w))"
proof (induction es arbitrary: ps)
  case Nil
  then show ?case by simp
next
  case (Cons e es)
  obtain p v where e: "e = (p, v)" by (cases e)
  have sub: "set es \<subseteq> set (e # es)" by auto
  from Cons.prems have "k \<in> fst ` set (fold loop_body es (loop_body (p, v) ps))"
    by (simp add: e)
  from Cons.IH [OF this] consider
      (a) "k \<in> fst ` set (loop_body (p, v) ps)"
    | (b) "\<exists>w. (k, w) \<in> set es \<and> \<not> nested w"
    | (c) "\<exists>p w. (p, w) \<in> set es \<and> nested w \<and> k \<in> fst ` set (transformParameters w)"
    by blast
  then show ?case
  proof cases
    case a
    show ?thesis
    proof (cases "nested v")
      case True
      have "(p, v) \<in> set (e # es)" by (simp add: e)
      moreover from a True have "k \<in> fst ` set ps \<or> k \<in> fst ` set (transformParameters v)"
        by (simp add: keys_loop_body_nested)
      ultimately show ?thesis using True by blast
    next
      case False
      with a keys_loop_body_other [of v p ps] have "k = p \<or> k \<in> fst ` set ps" by auto
      moreover have "(p, v) \<in> set (e # es)" by (simp add: e)
      ultimately show ?thesis using False by blast
    qed
  next
    case b
    with sub show ?thesis by blast
  next
    case c
    with sub show ?thesis by blast
  qed
qed

lemma getAll_entry:
  assumes "distinct (map fst (es1 @ (k, v) # es2))"
  shows "getAll k (transformParameters (JObj (es1 @ (k, v) # es2)))
       = getAll k (loop_body (k, v) (fold loop_body es1 [])) @ concat (map (nested_values k) es2)"
    and "getAll k (fold loop_body es1 []) = concat (map (nested_values k) es1)"
proof -
  from assms have n1: "k \<notin> fst ` set es1" and n2: "k \<notin> fst ` set es2" by auto
  show "getAll k (fold loop_body es1 []) = concat (map (nested_values k) es1)"
    by (simp add: getAll_fold_other [OF n1] getAll_Nil)
  show "getAll k (transformParameters (JObj (es1 @ (k, v) # es2)))
       = getAll k (loop_body (k, v) (fold loop_body es1 [])) @ concat (map (nested_values k) es2)"
    by (simp add: transformParameters_fold getAll_fold_other [OF n2])
qed

lemma nested_values_empty:
  "\<forall>(x, v) \<in> set es. nested v \<longrightarrow> k \<notin> fst ` set (transformParameters v) \<Longrightarrow>
   concat (map (nested_values k) es) = []"
  by (auto simp: nested_values_def getAll_notin)

section \<open>Requests and responses\<close>

lemma is_JSendReply_truthy: "is_JSendReply v \<Longrightarrow> truthy v"
  by (cases v) (simp_all add: is_JSendReply_def prop_of_def)

lemma unwrap_success: "json res = Inr e \<Longrightarrow> truthy e \<Longrightarrow>
  catch_obs errorHandler (map_obs extractData (Next res)) = Next e"
  by (simp add: extractData_def)

text \<open>
  C1. The claim: \<open>get\<close>, \<open>post\<close>, \<open>put\<close> and \<open>delete\<close> send their request to the prefix
  given to the constructor, then \<open>/\<close>, then the endpoint. The constructor does not keep
  the prefix: against a server that answers with the URL it was asked for, every
  operation of a service constructed with any prefix reaches \<open>/\<close> followed by the
  endpoint.
\<close>

theorem constructor_discards_prefix:
  "url (constructor h prefix) = []
   \<and> get (constructor (\<lambda>req. \<lparr>status = 200, json = Inr (JStr (req_url req))\<rparr>) prefix) (Some e) q
     = Next (JStr (''/'' @ e))
   \<and> post (constructor (\<lambda>req. \<lparr>status = 200, json = Inr (JStr (req_url req))\<rparr>) prefix) (Some e) d
     = Next (JStr (''/'' @ e))
   \<and> put (constructor (\<lambda>req. \<lparr>status = 200, json = Inr (JStr (req_url req))\<rparr>) prefix) (Some e) d
     = Next (JStr (''/'' @ e))
   \<and> delete (constructor (\<lambda>req. \<lparr>status = 200, json = Inr (JStr (req_url req))\<rparr>) prefix) (Some e) q
     = Next (JStr (''/'' @ e))"
  by (simp add: get_def post_def put_def delete_def constructor_def default_endpoint_def
      http_get_def http_post_def http_put_def http_delete_def request_def ok_def extractData_def)

text \<open>
  C2. The claim: \<open>extractData\<close> never throws, returns an empty object for an empty or
  unparseable body and the decoded value otherwise. It throws when decoding throws,
  and a decoded value that is falsy is replaced by the empty object.
\<close>

theorem extractData_throws_counterexample:
  "extractData \<lparr>status = 200, json = Inl SyntaxError\<rparr> = Inl SyntaxError
   \<and> extractData \<lparr>status = 200, json = Inr (JNum 0)\<rparr> = Inr (JObj [])"
  by (simp add: extractData_def)

text \<open>
  C2 as amended: \<open>extractData\<close> throws exactly what decoding the body throws; when
  decoding returns a truthy value it returns that value, and when decoding returns a
  falsy value (\<open>null\<close>, \<open>undefined\<close>, \<open>false\<close>, \<open>0\<close>, the empty string) it returns
  the empty object.
\<close>

theorem extractData_result:
  "(extractData res = Inl e \<longleftrightarrow> json res = Inl e)
   \<and> (json res = Inr v \<and> truthy v \<longrightarrow> extractData res = Inr v)
   \<and> (json res = Inr v \<and> \<not> truthy v \<longrightarrow> extractData res = Inr (JObj []))"
  by (auto simp: extractData_def split: sum.splits)

theorem extractData_result_witness:
  "extractData \<lparr>status = 204, json = Inr JNull\<rparr> = Inr (JObj [])
   \<and> extractData \<lparr>status = 200, json = Inr (JObj [(''data'', JNum 1)])\<rparr>
       = Inr (JObj [(''data'', JNum 1)])
   \<and> extractData \<lparr>status = 200, json = Inl SyntaxError\<rparr> = Inl SyntaxError"
  using extractData_result [of "\<lparr>status = 204, json = Inr JNull\<rparr>" SyntaxError JNull]
    extractData_result [of "\<lparr>status = 200, json = Inr (JObj [(''data'', JNum 1)])\<rparr>"
      SyntaxError "JObj [(''data'', JNum 1)]"]
    extractData_result [of "\<lparr>status = 200, json = Inl SyntaxError\<rparr>" SyntaxError JNull]
  by simp

text \<open>
  C3. The claim: a failed response whose body is an envelope \<open>e\<close> makes the operation
  fail with \<open>e\<close> as the error payload. \<open>errorHandler\<close> decodes the body and then calls
  \<open>Observable.throw\<close>, which the file never installs: against a server that answers
  404 with the envelope of the spec, every operation fails with a TypeError instead.
\<close>

theorem errorHandler_throw_not_installed:
  "get \<lparr>http = (\<lambda>req. \<lparr>status = 404, json = Inr (JObj [(''data'', JNull),
          (''message'', JStr ''not found''), (''status'', JStr ''error''),
          (''statusCode'', JNum 404)])\<rparr>), url = ''api''\<rparr> (Some ''todos'') JUndefined
     = Error (FThrown TypeError)
   \<and> getExternal \<lparr>http = (\<lambda>req. \<lparr>status = 404, json = Inr (JObj [(''data'', JNull),
          (''message'', JStr ''not found''), (''status'', JStr ''error''),
          (''statusCode'', JNum 404)])\<rparr>), url = ''api''\<rparr> ''api/todos'' JUndefined
     = Error (FThrown TypeError)
   \<and> post \<lparr>http = (\<lambda>req. \<lparr>status = 404, json = Inr (JObj [(''data'', JNull),
          (''message'', JStr ''not found''), (''status'', JStr ''error''),
          (''statusCode'', JNum 404)])\<rparr>), url = ''api''\<rparr> (Some ''todos'') JUndefined
     = Error (FThrown TypeError)
   \<and> put \<lparr>http = (\<lambda>req. \<lparr>status = 404, json = Inr (JObj [(''data'', JNull),
          (''message'', JStr ''not found''), (''status'', JStr ''error''),
          (''statusCode'', JNum 404)])\<rparr>), url = ''api''\<rparr> (Some ''todos'') JUndefined
     = Error (FThrown TypeError)
   \<and> delete \<lparr>http = (\<lambda>req. \<lparr>status = 404, json = Inr (JObj [(''data'', JNull),
          (''message'', JStr ''not found''), (''status'', JStr ''error''),
          (''statusCode'', JNum 404)])\<rparr>), url = ''api''\<rparr> (Some ''todos'') JUndefined
     = Error (FThrown TypeError)"
  by (simp add: get_def getExternal_def post_def put_def delete_def
      http_get_def http_post_def http_put_def http_delete_def request_def ok_def
      Observable_throw_def)

text \<open>
  C4. When the client succeeds with a 2xx response whose body decodes to an envelope
  \<open>e\<close>, every operation produces \<open>e\<close> itself: nothing of it, its \<open>status\<close> and
  \<open>statusCode\<close> included, is changed.
\<close>

theorem success_response_envelope:
  assumes "ok res" and "json res = Inr e" and "is_JSendReply e"
  shows "(http this \<lparr>req_method = Get, req_url = url this @ ''/'' @ default_endpoint ep,
                     req_search = Some (transformParameters q), req_body = None\<rparr> = res
            \<longrightarrow> get this ep q = Next e)
       \<and> (http this \<lparr>req_method = Get, req_url = u,
                     req_search = Some (transformParameters q), req_body = None\<rparr> = res
            \<longrightarrow> getExternal this u q = Next e)
       \<and> (http this \<lparr>req_method = Post, req_url = url this @ ''/'' @ default_endpoint ep,
                     req_search = None, req_body = Some (default_data d)\<rparr> = res
            \<longrightarrow> post this ep d = Next e)
       \<and> (http this \<lparr>req_method = Put, req_url = url this @ ''/'' @ default_endpoint ep,
                     req_search = None, req_body = Some (default_data d)\<rparr> = res
            \<longrightarrow> put this ep d = Next e)
       \<and> (http this \<lparr>req_method = Delete, req_url = url this @ ''/'' @ default_endpoint ep,
                     req_search = Some (transformParameters q), req_body = None\<rparr> = res
            \<longrightarrow> delete this ep q = Next e)"
  using assms(1) unwrap_success [OF assms(2) is_JSendReply_truthy [OF assms(3)]]
  by (simp add: get_def getExternal_def post_def put_def delete_def
      http_get_def http_post_def http_put_def http_delete_def request_def)

theorem success_response_envelope_witness:
  "get \<lparr>http = (\<lambda>req. \<lparr>status = 200, json = Inr (JObj [(''data'', JObj [(''id'', JNum 1)]),
          (''message'', JStr ''ok''), (''status'', JStr ''success''),
          (''statusCode'', JNum 200)])\<rparr>), url = ''api''\<rparr> (Some ''todos'') JUndefined
     = Next (JObj [(''data'', JObj [(''id'', JNum 1)]), (''message'', JStr ''ok''),
          (''status'', JStr ''success''), (''statusCode'', JNum 200)])
   \<and> delete \<lparr>http = (\<lambda>req. \<lparr>status = 200, json = Inr (JObj [(''data'', JObj [(''id'', JNum 1)]),
          (''message'', JStr ''ok''), (''status'', JStr ''success''),
          (''statusCode'', JNum 200)])\<rparr>), url = ''api''\<rparr> (Some ''todos'') JUndefined
     = Next (JObj [(''data'', JObj [(''id'', JNum 1)]), (''message'', JStr ''ok''),
          (''status'', JStr ''success''), (''statusCode'', JNum 200)])"
proof -
  let ?e = "JObj [(''data'', JObj [(''id'', JNum 1)]), (''message'', JStr ''ok''),
    (''status'', JStr ''success''), (''statusCode'', JNum 200)]"
  let ?res = "\<lparr>status = 200, json = Inr ?e\<rparr>"
  have a: "ok ?res" by (simp add: ok_def)
  have b: "json ?res = Inr ?e" by simp
  have c: "is_JSendReply ?e" by (simp add: is_JSendReply_def prop_of_def)
  show ?thesis
    using success_response_envelope [OF a b c, of "\<lparr>http = (\<lambda>req. ?res), url = ''api''\<rparr>"]
    by simp
qed

text \<open>
  C9. \<open>getExternal\<close> sends one GET request to the URL it is given, character for
  character, with the flattened parameters; the \<open>url\<close> of the service plays no part;
  and its result is the result of \<open>get\<close> whenever \<open>get\<close> composes that same URL.
\<close>

theorem getExternal_verbatim:
  "getExternal this u q
     = catch_obs errorHandler (map_obs extractData (request (http this)
         \<lparr>req_method = Get, req_url = u, req_search = Some (transformParameters q),
          req_body = None\<rparr>))
   \<and> getExternal (this\<lparr>url := base\<rparr>) u q = getExternal this u q
   \<and> (url this @ ''/'' @ default_endpoint ep = u \<longrightarrow> get this ep q = getExternal this u q)"
  by (simp add: getExternal_def get_def http_get_def)

theorem getExternal_verbatim_witness:
  "getExternal \<lparr>http = (\<lambda>req. \<lparr>status = 200, json = Inr (JStr (req_url req))\<rparr>), url = ''api''\<rparr>
       ''https://example.org/v1/items'' JUndefined
     = Next (JStr ''https://example.org/v1/items'')
   \<and> get \<lparr>http = (\<lambda>req. \<lparr>status = 200, json = Inr (JStr (req_url req))\<rparr>), url = ''api''\<rparr>
       (Some ''items'') JUndefined
     = getExternal \<lparr>http = (\<lambda>req. \<lparr>status = 200, json = Inr (JStr (req_url req))\<rparr>), url = ''api''\<rparr>
       ''api/items'' JUndefined"
  using getExternal_verbatim [of
      "\<lparr>http = (\<lambda>req. \<lparr>status = 200, json = Inr (JStr (req_url req))\<rparr>), url = ''api''\<rparr>"
      "''https://example.org/v1/items''" JUndefined "''api''" "Some ''items''"]
    getExternal_verbatim [of
      "\<lparr>http = (\<lambda>req. \<lparr>status = 200, json = Inr (JStr (req_url req))\<rparr>), url = ''api''\<rparr>"
      "''api/items''" JUndefined "''api''" "Some ''items''"]
  by (simp add: default_endpoint_def request_def ok_def extractData_def)

section \<open>Flattening of the query parameters\<close>

text \<open>
  C8. The claim: a bag whose values are all scalars (no date, no array, nothing of type
  \<open>object\<close>) flattens to one pair per key. \<open>undefined\<close> is such a value, and \<open>set\<close>
  with \<open>undefined\<close> stores nothing.
\<close>

theorem scalar_undefined_counterexample:
  "pairs (transformParameters (JObj [(''a'', JUndefined), (''b'', JNum 1)])) = [(''b'', JNum 1)]"
  by (simp add: transformParameters_fold loop_body_def set_param_def absent_def pairs_def)

text \<open>
  C8 as amended: for a bag whose values are all scalars, the flattened collection has
  one entry with one value per property of the bag whose value is not \<open>undefined\<close>, in
  the bag's order, and nothing for the others: its pairs are those properties, and the
  query string writes each value in its string form.
\<close>

theorem scalar_bag_pairs:
  assumes "distinct (map fst es)" and "\<forall>(k, v) \<in> set es. scalar v"
  shows "transformParameters (JObj es)
           = map (\<lambda>(k, v). (k, [v])) (filter (\<lambda>(k, v). v \<noteq> JUndefined) es)
       \<and> pairs (transformParameters (JObj es)) = filter (\<lambda>(k, v). v \<noteq> JUndefined) es
       \<and> string_pairs str (transformParameters (JObj es))
           = map (\<lambda>(k, v). (k, str v)) (filter (\<lambda>(k, v). v \<noteq> JUndefined) es)"
proof -
  have "fold loop_body es []
      = [] @ map (\<lambda>(k, v). (k, [v])) (filter (\<lambda>(k, v). v \<noteq> JUndefined) es)"
    using assms by (intro fold_loop_body_scalars) simp_all
  then have "transformParameters (JObj es)
      = map (\<lambda>(k, v). (k, [v])) (filter (\<lambda>(k, v). v \<noteq> JUndefined) es)"
    by (simp add: transformParameters_fold)
  then show ?thesis by (simp add: string_pairs_def pairs_singletons)
qed

theorem scalar_bag_pairs_witness:
  "string_pairs
     (\<lambda>v. case v of JStr s \<Rightarrow> s | JNum n \<Rightarrow> show_nat (nat n)
          | JBool b \<Rightarrow> (if b then ''true'' else ''false'') | _ \<Rightarrow> [])
     (transformParameters (JObj [(''page'', JNum 2), (''q'', JStr ''milk''),
        (''owner'', JUndefined), (''done'', JBool False)]))
   = [(''page'', ''2''), (''q'', ''milk''), (''done'', ''false'')]"
proof -
  let ?es = "[(''page'', JNum 2), (''q'', JStr ''milk''), (''owner'', JUndefined),
    (''done'', JBool False)]"
  have d: "distinct (map fst ?es)" by simp
  let ?str = "\<lambda>v. case v of JStr s \<Rightarrow> s | JNum n \<Rightarrow> show_nat (nat n)
    | JBool b \<Rightarrow> (if b then ''true'' else ''false'') | _ \<Rightarrow> []"
  have s: "\<forall>(k, v) \<in> set ?es. scalar v" by (simp add: scalar_def)
  show ?thesis
    using scalar_bag_pairs [OF d s, of ?str]
    by (simp add: string_pairs_def pairs_def show_nat.simps digit_def)
qed

text \<open>
  C10. An entry whose value is \<open>null\<close> adds nothing: \<open>null\<close> has type \<open>object\<close> and is
  no array, the loop over \<open>null\<close> visits nothing, and appending the empty collection
  changes nothing. So the flattening of a bag is the flattening of the bag without its
  \<open>null\<close> entries.
\<close>

theorem null_entries_dropped:
  "transformParameters (JObj es) = transformParameters (JObj (filter (\<lambda>e. snd e \<noteq> JNull) es))
   \<and> transformParameters (JObj (es1 @ (k, JNull) # es2)) = transformParameters (JObj (es1 @ es2))
   \<and> nested JNull \<and> transformParameters JNull = []"
  by (simp add: transformParameters_fold fold_loop_body_null loop_body_null transformParameters_null
      nested_def del: fold_append) (simp add: transformParameters_fold loop_body_null)

theorem null_entries_dropped_witness:
  "transformParameters (JObj [(''a'', JNull), (''b'', JNum 1), (''c'', JNull)]) = [(''b'', [JNum 1])]"
  using null_entries_dropped [of "[(''a'', JNull), (''b'', JNum 1), (''c'', JNull)]" "[]" "''a''" "[]"]
  by (simp add: transformParameters_fold loop_body_def set_param_def absent_def appendAll_Nil)

text \<open>
  C5. The claim: the pairs a nested object flattens to are in the outer result under
  their own names. A later property of the bag with the name of an inner key and a
  scalar value replaces them.
\<close>

theorem nested_pair_replaced_counterexample:
  "pairs (transformParameters (JObj [(''x'', JObj [(''k'', JNum 1)]), (''k'', JNum 2)]))
   = [(''k'', JNum 2)]"
  by (simp add: transformParameters_fold loop_body_def set_param_def absent_def appendAll_def
      getAll_def pairs_def)

text \<open>
  C5 as amended: a nested object (a value of type \<open>object\<close> that is no date and no
  array) is flattened on its own and merged under the names of its own keys. For a
  name \<open>k\<close> that no later property of the bag holds with a date or a scalar, the inner
  pairs of \<open>k\<close> stand together and in order among the outer pairs of \<open>k\<close>. And every
  key of the outer result is a property of the bag whose value is not a nested object,
  or a key of the flattening of one of its nested objects, so no key is made from the
  name of the parent.
\<close>

theorem nested_object_merged:
  assumes "nested v" and "\<forall>w. (k, w) \<in> set es2 \<longrightarrow> nested w \<or> isArray w"
  shows "(\<exists>before after.
            filter (\<lambda>p. fst p = k) (pairs (transformParameters (JObj (es1 @ (x, v) # es2))))
              = before @ filter (\<lambda>p. fst p = k) (pairs (transformParameters v)) @ after)
       \<and> (\<forall>k' \<in> fst ` set (transformParameters (JObj (es1 @ (x, v) # es2))).
            (\<exists>w. (k', w) \<in> set (es1 @ (x, v) # es2) \<and> \<not> nested w)
            \<or> (\<exists>p w. (p, w) \<in> set (es1 @ (x, v) # es2) \<and> nested w
                  \<and> k' \<in> fst ` set (transformParameters w)))"
proof -
  let ?es = "es1 @ (x, v) # es2"
  let ?P = "fold loop_body es1 []"
  obtain a where a: "getAll k (fold loop_body es2 (loop_body (x, v) ?P))
      = getAll k (loop_body (x, v) ?P) @ a"
    using getAll_fold_grows [OF assms(2)] by blast
  have "getAll k (transformParameters (JObj ?es))
      = getAll k ?P @ getAll k (transformParameters v) @ a"
    using a by (simp add: transformParameters_fold getAll_loop_body_nested [OF assms(1)])
  then have "filter (\<lambda>p. fst p = k) (pairs (transformParameters (JObj ?es)))
      = map (Pair k) (getAll k ?P)
        @ filter (\<lambda>p. fst p = k) (pairs (transformParameters v)) @ map (Pair k) a"
    by (simp add: filter_pairs distinct_transformParameters)
  then have b: "\<exists>before after.
      filter (\<lambda>p. fst p = k) (pairs (transformParameters (JObj ?es)))
        = before @ filter (\<lambda>p. fst p = k) (pairs (transformParameters v)) @ after"
    by blast
  have c: "(\<exists>w. (k', w) \<in> set ?es \<and> \<not> nested w)
      \<or> (\<exists>p w. (p, w) \<in> set ?es \<and> nested w \<and> k' \<in> fst ` set (transformParameters w))"
    if "k' \<in> fst ` set (transformParameters (JObj ?es))" for k'
    using keys_fold_origin [of k' ?es "[]"] that by (simp add: transformParameters_fold)
  from b c show ?thesis by blast
qed

theorem nested_object_merged_witness:
  "(\<exists>before after.
      filter (\<lambda>p. fst p = ''y'')
        (pairs (transformParameters (JObj [(''y'', JStr ''a''), (''x'', JObj [(''y'', JNum 1)]),
           (''z'', JNum 3)])))
      = before @ [(''y'', JNum 1)] @ after)
   \<and> pairs (transformParameters (JObj [(''x'', JObj [(''y'', JNum 1)])])) = [(''y'', JNum 1)]"
proof -
  let ?v = "JObj [(''y'', JNum 1)]"
  have n: "nested ?v" by (simp add: nested_def)
  have l: "\<forall>w. (''y'', w) \<in> set [(''z'', JNum 3)] \<longrightarrow> nested w \<or> isArray w" by simp
  have inner: "filter (\<lambda>p. fst p = ''y'') (pairs (transformParameters ?v)) = [(''y'', JNum 1)]"
    by (simp add: transformParameters_fold loop_body_def set_param_def absent_def pairs_def)
  have "pairs (transformParameters (JObj [(''x'', ?v)])) = [(''y'', JNum 1)]"
    by (simp add: transformParameters_fold loop_body_def set_param_def absent_def appendAll_def
        getAll_def pairs_def)
  with inner nested_object_merged [OF n l, of "[(''y'', JStr ''a'')]" "''x''"]
  show ?thesis by simp
qed

text \<open>
  C6. The claim: an array under \<open>k\<close> flattens to one pair per element. \<open>append\<close>
  ignores an element that is \<open>null\<close> or \<open>undefined\<close>.
\<close>

theorem array_absent_elements_counterexample:
  "pairs (transformParameters (JObj [(''k'', JArr [JNum 1, JNull, JNum 2, JUndefined])]))
   = [(''k'', JNum 1), (''k'', JNum 2)]"
  by (simp add: transformParameters_fold loop_body_def append_param_def absent_def getAll_def
      pairs_def)

text \<open>
  C6 as amended: for a bag with an array \<open>vs\<close> under its key \<open>k\<close>, the pairs of the
  result keyed \<open>k\<close> hold one pair per element of \<open>vs\<close> that is neither \<open>null\<close> nor
  \<open>undefined\<close>, next to each other and in the array's order, and none for the other
  elements; they are all the pairs keyed \<open>k\<close> when no nested object of the bag flattens
  to a pair keyed \<open>k\<close>.
\<close>

theorem array_pairs_in_order:
  assumes "distinct (map fst es)" and "(k, JArr vs) \<in> set es"
  shows "(\<exists>before after. filter (\<lambda>p. fst p = k) (pairs (transformParameters (JObj es)))
            = before @ map (Pair k) (filter (\<lambda>v. \<not> absent v) vs) @ after)
       \<and> ((\<forall>(x, v) \<in> set es. nested v \<longrightarrow> k \<notin> fst ` set (transformParameters v))
            \<longrightarrow> filter (\<lambda>p. fst p = k) (pairs (transformParameters (JObj es)))
                = map (Pair k) (filter (\<lambda>v. \<not> absent v) vs))"
proof -
  from assms(2) obtain es1 es2 where es: "es = es1 @ (k, JArr vs) # es2"
    by (auto dest: split_list)
  with assms(1) have d: "distinct (map fst (es1 @ (k, JArr vs) # es2))" by simp
  let ?b = "concat (map (nested_values k) es1)" and ?a = "concat (map (nested_values k) es2)"
  let ?vs = "filter (\<lambda>v. \<not> absent v) vs"
  have "getAll k (transformParameters (JObj es)) = ?b @ ?vs @ ?a"
    by (simp add: es getAll_entry [OF d] getAll_loop_body_array)
  then have f: "filter (\<lambda>p. fst p = k) (pairs (transformParameters (JObj es)))
      = map (Pair k) ?b @ map (Pair k) ?vs @ map (Pair k) ?a"
    by (simp add: filter_pairs distinct_transformParameters)
  have "filter (\<lambda>p. fst p = k) (pairs (transformParameters (JObj es))) = map (Pair k) ?vs"
    if "\<forall>(x, v) \<in> set es. nested v \<longrightarrow> k \<notin> fst ` set (transformParameters v)"
  proof -
    from that have "\<forall>(x, v) \<in> set es1. nested v \<longrightarrow> k \<notin> fst ` set (transformParameters v)"
      and "\<forall>(x, v) \<in> set es2. nested v \<longrightarrow> k \<notin> fst ` set (transformParameters v)"
      by (simp_all add: es)
    then have "?b = []" and "?a = []"
      by (simp_all only: nested_values_empty)
    with f show ?thesis by simp
  qed
  with f show ?thesis by blast
qed

theorem array_pairs_in_order_witness:
  "filter (\<lambda>p. fst p = ''tag'')
     (pairs (transformParameters (JObj [(''tag'', JArr [JStr ''a'', JNull, JStr ''b'', JStr ''c'']),
        (''page'', JNum 1)])))
   = [(''tag'', JStr ''a''), (''tag'', JStr ''b''), (''tag'', JStr ''c'')]"
proof -
  let ?es = "[(''tag'', JArr [JStr ''a'', JNull, JStr ''b'', JStr ''c'']), (''page'', JNum 1)]"
  have d: "distinct (map fst ?es)" by simp
  have m: "(''tag'', JArr [JStr ''a'', JNull, JStr ''b'', JStr ''c'']) \<in> set ?es" by simp
  have n: "\<forall>(x, v) \<in> set ?es. nested v \<longrightarrow> ''tag'' \<notin> fst ` set (transformParameters v)"
    by (simp add: nested_def)
  show ?thesis using array_pairs_in_order [OF d m] n by (simp add: absent_def)
qed

text \<open>
  C7. The claim: a bag with a date under \<open>k\<close> flattens to a single pair for \<open>k\<close>, with
  the date-only string. A nested object of the bag that has a property \<open>k\<close> of its own
  adds a second pair for \<open>k\<close>.
\<close>

theorem date_single_pair_counterexample:
  "pairs (transformParameters (JObj
     [(''k'', JDate (Some \<lparr>getFullYear = 2026, getMonth = 10, getDate = 2, getDay = 1, getHours = 9, getMinutes = 30, getSeconds = 0, getMilliseconds = 0\<rparr>)),
      (''x'', JObj [(''k'', JDate (Some \<lparr>getFullYear = 2026, getMonth = 10, getDate = 2, getDay = 1, getHours = 9, getMinutes = 30, getSeconds = 0, getMilliseconds = 0\<rparr>))])]))
   = [(''k'', JStr ''Mon Nov 02 2026''), (''k'', JStr ''Mon Nov 02 2026'')]"
  by (simp add: transformParameters_fold loop_body_def set_param_def absent_def appendAll_def
      getAll_def pairs_def toDateString_def weekday_name_def month_name_def zero_pad_def
      show_nat.simps digit_def)

text \<open>
  C7 as amended: for a bag with a date \<open>d\<close> under its key \<open>k\<close>, the first pair of the
  result keyed \<open>k\<close> has the value \<open>toDateString\<close> of \<open>d\<close>; it is the only pair keyed
  \<open>k\<close> when no nested object of the bag flattens to a pair keyed \<open>k\<close>; and the string
  is the same whatever the hours, minutes, seconds and milliseconds of \<open>d\<close> are.
\<close>

theorem date_pair_first:
  assumes "distinct (map fst es)" and "(k, JDate d) \<in> set es"
  shows "(\<exists>after. filter (\<lambda>p. fst p = k) (pairs (transformParameters (JObj es)))
            = (k, JStr (toDateString d)) # after)
       \<and> ((\<forall>(x, v) \<in> set es. nested v \<longrightarrow> k \<notin> fst ` set (transformParameters v))
            \<longrightarrow> filter (\<lambda>p. fst p = k) (pairs (transformParameters (JObj es)))
                = [(k, JStr (toDateString d))])
       \<and> toDateString (map_option (\<lambda>t. t\<lparr>getHours := h, getMinutes := m, getSeconds := s,
                                          getMilliseconds := ms\<rparr>) d) = toDateString d"
proof -
  from assms(2) obtain es1 es2 where es: "es = es1 @ (k, JDate d) # es2"
    by (auto dest: split_list)
  with assms(1) have d: "distinct (map fst (es1 @ (k, JDate d) # es2))" by simp
  let ?a = "concat (map (nested_values k) es2)"
  have "getAll k (transformParameters (JObj es)) = JStr (toDateString d) # ?a"
    by (simp add: es getAll_entry(1) [OF d] getAll_loop_body_date)
  then have f: "filter (\<lambda>p. fst p = k) (pairs (transformParameters (JObj es)))
      = (k, JStr (toDateString d)) # map (Pair k) ?a"
    by (simp add: filter_pairs distinct_transformParameters)
  have "filter (\<lambda>p. fst p = k) (pairs (transformParameters (JObj es))) = [(k, JStr (toDateString d))]"
    if "\<forall>(x, v) \<in> set es. nested v \<longrightarrow> k \<notin> fst ` set (transformParameters v)"
  proof -
    from that have "\<forall>(x, v) \<in> set es2. nested v \<longrightarrow> k \<notin> fst ` set (transformParameters v)"
      by (simp add: es)
    then have "?a = []"
      by (simp only: nested_values_empty)
    with f show ?thesis by simp
  qed
  moreover have "toDateString (map_option (\<lambda>t. t\<lparr>getHours := h, getMinutes := m, getSeconds := s,
      getMilliseconds := ms\<rparr>) d) = toDateString d"
    by (cases d) (simp_all add: toDateString_def)
  ultimately show ?thesis using f by blast
qed

theorem date_pair_first_witness:
  "filter (\<lambda>p. fst p = ''due'')
     (pairs (transformParameters (JObj [(''q'', JStr ''milk''),
        (''due'', JDate (Some \<lparr>getFullYear = 2026, getMonth = 10, getDate = 2, getDay = 1, getHours = 9, getMinutes = 30, getSeconds = 0, getMilliseconds = 0\<rparr>))])))
   = [(''due'', JStr ''Mon Nov 02 2026'')]"
proof -
  let ?d = "Some \<lparr>getFullYear = 2026, getMonth = 10, getDate = 2, getDay = 1, getHours = 9, getMinutes = 30, getSeconds = 0, getMilliseconds = 0\<rparr>"
  let ?es = "[(''q'', JStr ''milk''), (''due'', JDate ?d)]"
  have d: "distinct (map fst ?es)" by simp
  have m: "(''due'', JDate ?d) \<in> set ?es" by simp
  have n: "\<forall>(x, v) \<in> set ?es. nested v \<longrightarrow> ''due'' \<notin> fst ` set (transformParameters v)"
    by (simp add: nested_def)
  have s: "toDateString ?d = ''Mon Nov 02 2026''"
    by (simp add: toDateString_def weekday_name_def month_name_def zero_pad_def
        show_nat.simps digit_def)
  show ?thesis using date_pair_first [OF d m] n s by simp
qed

end
